theory Spec2Isabelle
  imports Complex_Main "HOL-Library.Multiset"
begin

section \<open>Order analysis: data model\<close>

text \<open>
  The development embeds \<^verbatim>\<open>analyzer/types.py\<close> and \<^verbatim>\<open>analyzer/analyzer.py\<close>.
  A pandas \<^verbatim>\<open>DataFrame\<close> is an ordered list of labelled columns. A 64-bit float is the
  real number it denotes or one of the three special values of IEEE arithmetic (the sign
  of zero is not modelled). The metric deriver and the order filter compute on finite
  values exactly; the client scorer computes through the floating-point library, which
  is a parameter of the model.
\<close>

datatype error =
    KeyError string
  | TypeError
  | OverflowError
  | NaNToInteger
  | NumpyError
  | ValidationError string
  | NonFiniteValue

text \<open>
  \<open>KeyError\<close>: a column label is missing. \<open>TypeError\<close>: arithmetic on a string cell.
  \<open>OverflowError\<close>: an infinite float, or an integer beyond the machine range, cannot be
  converted to an integer. \<open>NaNToInteger\<close>: Python's \<^verbatim>\<open>ValueError\<close> "cannot convert float
  NaN to integer". \<open>NumpyError\<close>: an exception raised inside \<^verbatim>\<open>np.percentile\<close>.
  \<open>ValidationError\<close>: the \<^verbatim>\<open>ValueError\<close> raised by \<^verbatim>\<open>__post_init__\<close> of RISK and GAIN,
  with its message.
  \<open>NonFiniteValue\<close> is no exception of the program: it marks a column read by the order
  filter that holds an infinity or a NaN, where the model of the filter stops.
\<close>

definition bindE :: "error + 'a \<Rightarrow> ('a \<Rightarrow> error + 'b) \<Rightarrow> error + 'b" where
  "bindE m f = (case m of Inl e \<Rightarrow> Inl e | Inr x \<Rightarrow> f x)"

datatype cell = Num real | PInf | NInf | NaN | Str string

type_synonym dataframe = "(string \<times> cell list) list"

definition columns :: "dataframe \<Rightarrow> string list" where
  "columns df = map fst df"

definition get_col :: "dataframe \<Rightarrow> string \<Rightarrow> error + cell list" where
  "get_col df name = (case map_of df name of None \<Rightarrow> Inl (KeyError name) | Some c \<Rightarrow> Inr c)"

definition setitem :: "dataframe \<Rightarrow> string \<Rightarrow> cell list \<Rightarrow> dataframe" where
  "setitem df name c =
     (if name \<in> set (columns df)
      then map (\<lambda>(n, v). if n = name then (n, c) else (n, v)) df
      else df @ [(name, c)])"

fun is_str :: "cell \<Rightarrow> bool" where
  "is_str (Str s) = True"
| "is_str c = False"

fun cell_sub :: "cell \<Rightarrow> cell \<Rightarrow> cell" where
  "cell_sub (Num a) (Num b) = Num (a - b)"
| "cell_sub (Num a) PInf = NInf"
| "cell_sub (Num a) NInf = PInf"
| "cell_sub PInf (Num b) = PInf"
| "cell_sub PInf NInf = PInf"
| "cell_sub NInf (Num b) = NInf"
| "cell_sub NInf PInf = NInf"
| "cell_sub a b = NaN"

fun cell_div :: "cell \<Rightarrow> cell \<Rightarrow> cell" where
  "cell_div (Num a) (Num b) =
     (if b \<noteq> 0 then Num (a / b)
      else if a = 0 then NaN else if 0 < a then PInf else NInf)"
| "cell_div (Num a) PInf = Num 0"
| "cell_div (Num a) NInf = Num 0"
| "cell_div PInf (Num b) = (if b < 0 then NInf else PInf)"
| "cell_div NInf (Num b) = (if b < 0 then PInf else NInf)"
| "cell_div a b = NaN"

definition series_op :: "(cell \<Rightarrow> cell \<Rightarrow> cell) \<Rightarrow> cell list \<Rightarrow> cell list \<Rightarrow> error + cell list" where
  "series_op f xs ys =
     (if \<exists>p \<in> set (zip xs ys). is_str (fst p) \<or> is_str (snd p) then Inl TypeError
      else Inr (map (\<lambda>p. f (fst p) (snd p)) (zip xs ys)))"

subsection \<open>RISK and GAIN (types.py)\<close>

datatype RISK = RISK (risk_value: int)

datatype GAIN = GAIN (gain_value: int)

definition new_RISK :: "int \<Rightarrow> error + RISK" where
  "new_RISK v =
     (let self = RISK v
      in if \<not> (1 \<le> risk_value self \<and> risk_value self \<le> 10)
         then Inl (ValidationError ''RISK must be between 1 and 10'')
         else Inr self)"

definition new_GAIN :: "int \<Rightarrow> error + GAIN" where
  "new_GAIN v =
     (let self = GAIN v
      in if \<not> (1 \<le> gain_value self \<and> gain_value self \<le> 10)
         then Inl (ValidationError ''GAIN must be between 1 and 10'')
         else Inr self)"

subsection \<open>The analyzer object and the metric deriver\<close>

text \<open>
  An entry of \<^verbatim>\<open>client_dict\<close>: the values stored under the keys \<^verbatim>\<open>risk\<close>,
  \<^verbatim>\<open>risk_variance\<close>, \<^verbatim>\<open>gain\<close> and \<^verbatim>\<open>avg_margin_per_hour\<close>.
\<close>

type_synonym diagnostics = "RISK \<times> real \<times> GAIN \<times> real"

record analyzer =
  order_df :: dataframe
  client_dict :: "(string \<times> diagnostics) list"
  bad_orders :: "dataframe option"

text \<open>
  \<^verbatim>\<open>_prepare_columns\<close> binds \<^verbatim>\<open>df = self.order_df\<close> and assigns columns to it, which
  mutates the analyzer's own table; the model returns the analyzer with that field
  replaced. Each guard tests the labels of the table as it is at that moment.
\<close>

definition prepare_columns :: "analyzer \<Rightarrow> error + analyzer" where
  "prepare_columns self =
     (let df = order_df self in
      bindE (if ''contribution_margin'' \<notin> set (columns df)
             then bindE (get_col df ''profit'') (\<lambda>p.
                  bindE (get_col df ''costs'') (\<lambda>c.
                  bindE (series_op cell_sub p c) (\<lambda>v.
                  Inr (setitem df ''contribution_margin'' v))))
             else Inr df) (\<lambda>df1.
      bindE (if ''margin_per_hour'' \<notin> set (columns df1)
             then bindE (get_col df1 ''contribution_margin'') (\<lambda>m.
                  bindE (get_col df1 ''processing_time_hr'') (\<lambda>t.
                  bindE (series_op cell_div m t) (\<lambda>v.
                  Inr (setitem df1 ''margin_per_hour'' v))))
             else Inr df1) (\<lambda>df2.
      Inr (self\<lparr>order_df := df2\<rparr>))))"

text \<open>
  \<^verbatim>\<open>__init__\<close> stores a copy of the caller's table, so the table enriched below is the
  analyzer's own; every analysis reads \<open>order_df self\<close>.
\<close>

definition init :: "dataframe \<Rightarrow> error + analyzer" where
  "init df = prepare_columns \<lparr>order_df = df, client_dict = [], bad_orders = None\<rparr>"

subsection \<open>Numeric columns and descriptive statistics\<close>

fun float_of :: "cell \<Rightarrow> error + real" where
  "float_of (Num x) = Inr x"
| "float_of (Str s) = Inl TypeError"
| "float_of c = Inl NonFiniteValue"

fun floats_of :: "cell list \<Rightarrow> error + real list" where
  "floats_of [] = Inr []"
| "floats_of (c # cs) =
     bindE (float_of c) (\<lambda>x. bindE (floats_of cs) (\<lambda>xs. Inr (x # xs)))"


text \<open>\<^verbatim>\<open>Series.mean()\<close> and \<^verbatim>\<open>Series.var(ddof=0)\<close>, on a column with at least one row.\<close>

definition mean :: "real list \<Rightarrow> real" where
  "mean xs = sum_list xs / real (length xs)"

definition var0 :: "real list \<Rightarrow> real" where
  "var0 xs = sum_list (map (\<lambda>x. (x - mean xs)\<^sup>2) xs) / real (length xs)"

text \<open>
  Python's \<^verbatim>\<open>round(x)\<close> on a float and \<^verbatim>\<open>np.round(x)\<close> both round to the nearest
  integer, a tie going to the even neighbour.
\<close>

definition round_half_even :: "real \<Rightarrow> int" where
  "round_half_even x =
     (let f = \<lfloor>x\<rfloor>; d = x - of_int f
      in if d < 1 / 2 then f
         else if 1 / 2 < d then f + 1
         else if even f then f else f + 1)"

text \<open>\<^verbatim>\<open>np.clip(x, lo, hi)\<close> is \<^verbatim>\<open>minimum(maximum(x, lo), hi)\<close>.\<close>

definition clip :: "int \<Rightarrow> int \<Rightarrow> int \<Rightarrow> int" where
  "clip x lo hi = min (max x lo) hi"

text \<open>
  \<^verbatim>\<open>np.percentile(a, q)\<close> with the default linear method: the virtual index
  \<open>(n - 1) * q / 100\<close> into the sorted data, the two neighbours clipped to the last
  position, and numpy's two-sided interpolation formula.
\<close>

definition lerp :: "real \<Rightarrow> real \<Rightarrow> real \<Rightarrow> real" where
  "lerp a b t = (if 1 / 2 \<le> t then b - (b - a) * (1 - t) else a + (b - a) * t)"

definition percentile :: "real list \<Rightarrow> real \<Rightarrow> real" where
  "percentile xs q =
     (let s = sort xs; n = length s;
          v = (real n - 1) * (q / 100);
          lo = nat \<lfloor>v\<rfloor>; hi = min (lo + 1) (n - 1)
      in lerp (s ! lo) (s ! hi) (v - real lo))"


subsection \<open>Floating-point library\<close>

text \<open>
  The floating-point library. What pandas and numpy compute on 64-bit floats (the mean
  and the variance of a column, a percentile, the exponential and the four arithmetic
  operations) is not in the repository, and its results are rounded, can overflow and
  treat NaN and the infinities in their own way. These functions are therefore a
  parameter of the scorer. \<open>fl_percentile\<close> is \<open>None\<close> when numpy raises.
  \<open>clip_bigint\<close> tells whether \<^verbatim>\<open>np.clip\<close> accepts a Python integer outside the 64-bit
  range.
\<close>

record floatlib =
  fl_mean :: "cell list \<Rightarrow> cell"
  fl_var :: "cell list \<Rightarrow> cell"
  fl_percentile :: "cell list \<Rightarrow> real \<Rightarrow> cell option"
  fl_exp :: "cell \<Rightarrow> cell"
  fl_add :: "cell \<Rightarrow> cell \<Rightarrow> cell"
  fl_sub :: "cell \<Rightarrow> cell \<Rightarrow> cell"
  fl_mul :: "cell \<Rightarrow> cell \<Rightarrow> cell"
  fl_div :: "cell \<Rightarrow> cell \<Rightarrow> cell"
  clip_bigint :: bool

text \<open>
  The operations that are exact on every float: the unary minus, the comparison
  \<^verbatim>\<open>==\<close> (false on NaN), Python's \<^verbatim>\<open>round\<close> and \<^verbatim>\<open>int\<close>, \<^verbatim>\<open>np.round\<close>, and \<^verbatim>\<open>np.clip\<close> on
  a float and on an integer.
\<close>

fun cell_neg :: "cell \<Rightarrow> cell" where
  "cell_neg (Num x) = Num (- x)"
| "cell_neg PInf = NInf"
| "cell_neg NInf = PInf"
| "cell_neg c = NaN"

fun float_eq :: "cell \<Rightarrow> cell \<Rightarrow> bool" where
  "float_eq (Num x) (Num y) = (x = y)"
| "float_eq PInf PInf = True"
| "float_eq NInf NInf = True"
| "float_eq a b = False"

fun py_round :: "cell \<Rightarrow> error + int" where
  "py_round (Num x) = Inr (round_half_even x)"
| "py_round NaN = Inl NaNToInteger"
| "py_round PInf = Inl OverflowError"
| "py_round NInf = Inl OverflowError"
| "py_round (Str s) = Inl TypeError"

fun py_int :: "cell \<Rightarrow> error + int" where
  "py_int (Num x) = Inr (if 0 \<le> x then \<lfloor>x\<rfloor> else \<lceil>x\<rceil>)"
| "py_int NaN = Inl NaNToInteger"
| "py_int PInf = Inl OverflowError"
| "py_int NInf = Inl OverflowError"
| "py_int (Str s) = Inl TypeError"

fun np_round :: "cell \<Rightarrow> cell" where
  "np_round (Num x) = Num (of_int (round_half_even x))"
| "np_round c = c"

fun np_clip :: "cell \<Rightarrow> real \<Rightarrow> real \<Rightarrow> cell" where
  "np_clip (Num x) lo hi = Num (min (max x lo) hi)"
| "np_clip PInf lo hi = Num hi"
| "np_clip NInf lo hi = Num lo"
| "np_clip c lo hi = NaN"

definition np_clip_int :: "floatlib \<Rightarrow> int \<Rightarrow> int \<Rightarrow> int \<Rightarrow> error + int" where
  "np_clip_int fl k lo hi =
     (if (- (2 ^ 63) \<le> k \<and> k < 2 ^ 63) \<or> clip_bigint fl then Inr (clip k lo hi)
      else Inl OverflowError)"

subsection \<open>Client scorer\<close>

text \<open>
  The raw risk score \<^verbatim>\<open>1 + 9 * (1 - np.exp(-expected_risk / 20))\<close> and the raw gain score
  \<^verbatim>\<open>scaled * 9 + 1\<close> with \<^verbatim>\<open>scaled = (avg_mph - p10) / (p90 - p10)\<close>, in the arithmetic of
  the library.
\<close>

definition raw_risk_score :: "floatlib \<Rightarrow> cell \<Rightarrow> cell" where
  "raw_risk_score fl expected_risk =
     fl_add fl (Num 1)
       (fl_mul fl (Num 9)
          (fl_sub fl (Num 1) (fl_exp fl (fl_div fl (cell_neg expected_risk) (Num 20)))))"

definition raw_gain_score :: "floatlib \<Rightarrow> cell \<Rightarrow> cell \<Rightarrow> cell \<Rightarrow> cell" where
  "raw_gain_score fl avg_mph p10 p90 =
     (let scaled = fl_div fl (fl_sub fl avg_mph p10) (fl_sub fl p90 p10)
      in fl_add fl (fl_mul fl scaled (Num 9)) (Num 1))"

text \<open>
  From the raw score to the integer score: \<^verbatim>\<open>int(np.clip(round(score), 1, 10))\<close> for the
  risk and \<^verbatim>\<open>int(np.clip(np.round(x), 1, 10))\<close> for the gain.
\<close>

definition risk_score_of :: "floatlib \<Rightarrow> cell \<Rightarrow> error + int" where
  "risk_score_of fl score = bindE (py_round score) (\<lambda>k. np_clip_int fl k 1 10)"

definition gain_score_of :: "cell \<Rightarrow> error + int" where
  "gain_score_of x = py_int (np_clip (np_round x) 1 10)"

definition calculate_risk :: "floatlib \<Rightarrow> dataframe \<Rightarrow> error + (RISK \<times> cell)" where
  "calculate_risk fl client_df =
     bindE (get_col client_df ''risk (in percent)'') (\<lambda>c.
       if list_ex is_str c then Inl TypeError
       else
         let expected_risk = fl_mean fl c;
             variance = fl_var fl c;
             score = raw_risk_score fl expected_risk
         in bindE (risk_score_of fl score) (\<lambda>risk_score.
            bindE (new_RISK risk_score) (\<lambda>r. Inr (r, variance))))"

definition calculate_gain :: "floatlib \<Rightarrow> dataframe \<Rightarrow> error + GAIN" where
  "calculate_gain fl client_df =
     bindE (get_col client_df ''margin_per_hour'') (\<lambda>c.
       if list_ex is_str c then Inl TypeError
       else
         let avg_mph = fl_mean fl c
         in case fl_percentile fl c 10 of
              None \<Rightarrow> Inl NumpyError
            | Some p10 \<Rightarrow>
                (case fl_percentile fl c 90 of
                   None \<Rightarrow> Inl NumpyError
                 | Some p90 \<Rightarrow>
                     bindE (if float_eq p90 p10 then Inr 5
                            else gain_score_of (raw_gain_score fl avg_mph p10 p90))
                       new_GAIN))"

text \<open>
  What is assumed of the library where a claim needs a value: the standard model of
  floating-point arithmetic. On finite operands whose exact result is at most
  \<open>huge\<close> in size, each arithmetic operation returns a finite value within a relative
  error of \<open>roundoff\<close> and an absolute error of \<open>tiny\<close> of it; the exponential is within
  a relative error of \<open>1 / 2 ^ 40\<close> for arguments up to 700 in size; the mean of at most
  \<open>2 ^ 20\<close> finite values of size at most \<open>2 ^ 500\<close> is within \<open>1 / 2 ^ 30\<close> of the exact
  mean, relative to the mean of the absolute values, and \<open>tiny\<close>; a percentile of a
  column that repeats one finite value is that value.
\<close>

definition roundoff :: real where
  "roundoff = 1 / 2 ^ 52"

definition tiny :: real where
  "tiny = 1 / 2 ^ 1000"

definition huge :: real where
  "huge = 2 ^ 1000"

definition close_to :: "real \<Rightarrow> real \<Rightarrow> bool" where
  "close_to r x \<longleftrightarrow> \<bar>r - x\<bar> \<le> \<bar>x\<bar> * roundoff + tiny"

definition accurate :: "floatlib \<Rightarrow> bool" where
  "accurate fl \<longleftrightarrow>
     (\<forall>xs. xs \<noteq> [] \<and> length xs \<le> 2 ^ 20 \<and> list_all (\<lambda>x. \<bar>x\<bar> \<le> 2 ^ 500) xs \<longrightarrow>
        (\<exists>m. fl_mean fl (map Num xs) = Num m
           \<and> \<bar>m - mean xs\<bar> \<le> mean (map abs xs) / 2 ^ 30 + tiny))
   \<and> (\<forall>a b. \<bar>a + b\<bar> \<le> huge \<longrightarrow>
        (\<exists>r. fl_add fl (Num a) (Num b) = Num r \<and> close_to r (a + b)))
   \<and> (\<forall>a b. \<bar>a - b\<bar> \<le> huge \<longrightarrow>
        (\<exists>r. fl_sub fl (Num a) (Num b) = Num r \<and> close_to r (a - b)))
   \<and> (\<forall>a b. \<bar>a * b\<bar> \<le> huge \<longrightarrow>
        (\<exists>r. fl_mul fl (Num a) (Num b) = Num r \<and> close_to r (a * b)))
   \<and> (\<forall>a b. b \<noteq> 0 \<and> \<bar>a / b\<bar> \<le> huge \<longrightarrow>
        (\<exists>r. fl_div fl (Num a) (Num b) = Num r \<and> close_to r (a / b)))
   \<and> (\<forall>x. \<bar>x\<bar> \<le> 700 \<longrightarrow>
        (\<exists>e. fl_exp fl (Num x) = Num e \<and> \<bar>e - exp x\<bar> \<le> exp x / 2 ^ 40))
   \<and> (\<forall>x n q. 0 < n \<and> 0 \<le> q \<and> q \<le> 100 \<longrightarrow>
        fl_percentile fl (replicate n (Num x)) q = Some (Num x))"

text \<open>
  A library for concrete runs: exact on finite values, with the rules of IEEE
  arithmetic on the special values, the exponential overflowing above 709, the mean
  and the variance skipping NaN as pandas does, and the percentile as numpy computes
  it (sorted data, linear interpolation between the two neighbours).
\<close>

fun cell_add :: "cell \<Rightarrow> cell \<Rightarrow> cell" where
  "cell_add (Num a) (Num b) = Num (a + b)"
| "cell_add (Num a) PInf = PInf"
| "cell_add (Num a) NInf = NInf"
| "cell_add PInf (Num b) = PInf"
| "cell_add PInf PInf = PInf"
| "cell_add NInf (Num b) = NInf"
| "cell_add NInf NInf = NInf"
| "cell_add a b = NaN"

fun cell_mul :: "cell \<Rightarrow> cell \<Rightarrow> cell" where
  "cell_mul (Num a) (Num b) = Num (a * b)"
| "cell_mul (Num a) PInf = (if a = 0 then NaN else if 0 < a then PInf else NInf)"
| "cell_mul (Num a) NInf = (if a = 0 then NaN else if 0 < a then NInf else PInf)"
| "cell_mul PInf (Num b) = (if b = 0 then NaN else if 0 < b then PInf else NInf)"
| "cell_mul NInf (Num b) = (if b = 0 then NaN else if 0 < b then NInf else PInf)"
| "cell_mul PInf PInf = PInf"
| "cell_mul PInf NInf = NInf"
| "cell_mul NInf PInf = NInf"
| "cell_mul NInf NInf = PInf"
| "cell_mul a b = NaN"

fun cell_exp :: "cell \<Rightarrow> cell" where
  "cell_exp (Num x) = (if x \<le> 709 then Num (exp x) else PInf)"
| "cell_exp PInf = PInf"
| "cell_exp NInf = Num 0"
| "cell_exp c = NaN"

definition cell_mean :: "cell list \<Rightarrow> cell" where
  "cell_mean c =
     (let vs = filter (\<lambda>v. v \<noteq> NaN) c
      in if vs = [] then NaN
         else cell_div (foldr cell_add vs (Num 0)) (Num (real (length vs))))"

definition cell_var :: "cell list \<Rightarrow> cell" where
  "cell_var c =
     (let vs = filter (\<lambda>v. v \<noteq> NaN) c
      in if vs = [] then NaN
         else (case floats_of vs of Inr xs \<Rightarrow> Num (var0 xs) | Inl e \<Rightarrow> NaN))"

definition cell_lerp :: "cell \<Rightarrow> cell \<Rightarrow> real \<Rightarrow> cell" where
  "cell_lerp a b t =
     (if 1 / 2 \<le> t then cell_sub b (cell_mul (cell_sub b a) (Num (1 - t)))
      else cell_add a (cell_mul (cell_sub b a) (Num t)))"

fun finite_values :: "cell list \<Rightarrow> real list" where
  "finite_values [] = []"
| "finite_values (Num x # cs) = x # finite_values cs"
| "finite_values (c # cs) = finite_values cs"

definition cell_percentile :: "cell list \<Rightarrow> real \<Rightarrow> cell option" where
  "cell_percentile c q =
     (if c = [] then None
      else if NaN \<in> set c then Some NaN
      else
        let s = filter (\<lambda>v. v = NInf) c @ map Num (sort (finite_values c))
                  @ filter (\<lambda>v. v = PInf) c;
            n = length s;
            v = (real n - 1) * (q / 100);
            lo = nat \<lfloor>v\<rfloor>; hi = min (lo + 1) (n - 1)
        in Some (cell_lerp (s ! lo) (s ! hi) (v - real lo)))"

definition exact_lib :: floatlib where
  "exact_lib =
     \<lparr>fl_mean = cell_mean, fl_var = cell_var, fl_percentile = cell_percentile,
      fl_exp = cell_exp, fl_add = cell_add, fl_sub = cell_sub, fl_mul = cell_mul,
      fl_div = cell_div, clip_bigint = True\<rparr>"

text \<open>
  The formula of the specification for the raw risk score, in exact real arithmetic:
  \<^verbatim>\<open>1 + 9 * (1 - e^(-r / 20))\<close> for the expected risk \<open>r\<close>.
\<close>

definition risk_formula :: "real \<Rightarrow> real" where
  "risk_formula expected_risk = 1 + 9 * (1 - exp (- expected_risk / 20))"

text \<open>
  The label chosen by the \<^verbatim>\<open>if\<close>/\<^verbatim>\<open>elif\<close> chain of \<^verbatim>\<open>print_client_risk_and_gain\<close>
  (the text printed after the arrow).
\<close>

definition classification :: "int \<Rightarrow> int \<Rightarrow> real \<Rightarrow> string" where
  "classification gain risk variance =
     (if 6 \<le> gain \<and> (6 \<le> risk \<or> 60 \<le> variance) then ''Profitable but risky''
      else if gain \<le> 4 \<and> risk \<le> 4 \<and> variance \<le> 40 then ''Unprofitable but stable''
      else if 6 \<le> gain then ''Strong client''
      else if 6 \<le> risk \<or> 60 \<le> variance then ''Risk exposure''
      else ''Neutral'')"

text \<open>
  The five rules as the specification lists them, and the label of the first rule that
  holds.
\<close>

definition label_rules :: "((int \<Rightarrow> int \<Rightarrow> real \<Rightarrow> bool) \<times> string) list" where
  "label_rules =
     [(\<lambda>g r v. 6 \<le> g \<and> (6 \<le> r \<or> 60 \<le> v), ''Profitable but risky''),
      (\<lambda>g r v. g \<le> 4 \<and> r \<le> 4 \<and> v \<le> 40, ''Unprofitable but stable''),
      (\<lambda>g r v. 6 \<le> g, ''Strong client''),
      (\<lambda>g r v. 6 \<le> r \<or> 60 \<le> v, ''Risk exposure''),
      (\<lambda>g r v. True, ''Neutral'')]"

fun first_match :: "((int \<Rightarrow> int \<Rightarrow> real \<Rightarrow> bool) \<times> string) list \<Rightarrow> int \<Rightarrow> int \<Rightarrow> real \<Rightarrow> string option" where
  "first_match [] g r v = None"
| "first_match (rule # rules) g r v =
     (if fst rule g r v then Some (snd rule) else first_match rules g r v)"

subsection \<open>Sorting\<close>







subsection \<open>Order filter\<close>





subsection \<open>Example tables\<close>


section \<open>Properties\<close>

lemma bindE_Inr_iff: "bindE m f = Inr y \<longleftrightarrow> (\<exists>x. m = Inr x \<and> f x = Inr y)"
  by (cases m) (simp_all add: bindE_def)

lemma setitem_fresh: "name \<notin> set (columns df) \<Longrightarrow> setitem df name c = df @ [(name, c)]"
  by (simp add: setitem_def)

lemma columns_append: "columns (a @ b) = columns a @ columns b"
  by (simp add: columns_def)

lemma get_col_append:
  assumes "name \<in> set (columns df)"
  shows "get_col (df @ new) name = get_col df name"
proof -
  from assms have "name \<in> dom (map_of df)"
    by (simp add: columns_def dom_map_of_conv_image_fst)
  then have "map_of (df @ new) name = map_of df name"
    by (auto simp: map_add_dom_app_simps)
  then show ?thesis by (simp add: get_col_def)
qed

subsection \<open>Metric deriver\<close>

text \<open>
  A successful run appends at most the two derived columns after the existing ones,
  leaves both labels present, and touches no other field of the analyzer.
\<close>

lemma prepare_columns_frame:
  assumes "prepare_columns self = Inr s'"
  shows "\<exists>new. order_df s' = order_df self @ new
           \<and> set (columns new) \<subseteq> {''contribution_margin'', ''margin_per_hour''}
           \<and> ''contribution_margin'' \<in> set (columns (order_df s'))
           \<and> ''margin_per_hour'' \<in> set (columns (order_df s'))
           \<and> client_dict s' = client_dict self \<and> bad_orders s' = bad_orders self"
proof -
  from assms obtain df1 df2 where
    a: "(if ''contribution_margin'' \<notin> set (columns (order_df self))
         then bindE (get_col (order_df self) ''profit'') (\<lambda>p.
              bindE (get_col (order_df self) ''costs'') (\<lambda>c.
              bindE (series_op cell_sub p c) (\<lambda>v.
              Inr (setitem (order_df self) ''contribution_margin'' v))))
         else Inr (order_df self)) = Inr df1"
    and b: "(if ''margin_per_hour'' \<notin> set (columns df1)
             then bindE (get_col df1 ''contribution_margin'') (\<lambda>m.
                  bindE (get_col df1 ''processing_time_hr'') (\<lambda>t.
                  bindE (series_op cell_div m t) (\<lambda>v.
                  Inr (setitem df1 ''margin_per_hour'' v))))
             else Inr df1) = Inr df2"
    and c: "s' = self\<lparr>order_df := df2\<rparr>"
    unfolding prepare_columns_def Let_def bindE_Inr_iff by auto
  from a obtain n1 where n1: "df1 = order_df self @ n1"
    "set (columns n1) \<subseteq> {''contribution_margin''}"
    "''contribution_margin'' \<in> set (columns df1)"
    by (cases "''contribution_margin'' \<notin> set (columns (order_df self))")
       (auto simp: bindE_Inr_iff setitem_fresh columns_append, auto simp: columns_def)
  from b obtain n2 where n2: "df2 = df1 @ n2"
    "set (columns n2) \<subseteq> {''margin_per_hour''}"
    "''margin_per_hour'' \<in> set (columns df2)"
    by (cases "''margin_per_hour'' \<notin> set (columns df1)")
       (auto simp: bindE_Inr_iff setitem_fresh columns_append, auto simp: columns_def)
  have "order_df s' = order_df self @ (n1 @ n2)" using c n1 n2 by simp
  moreover have "set (columns (n1 @ n2)) \<subseteq> {''contribution_margin'', ''margin_per_hour''}"
    using n1 n2 by (auto simp: columns_append)
  moreover have "''contribution_margin'' \<in> set (columns (order_df s'))"
    using c n1 n2 by (auto simp: columns_append)
  moreover have "''margin_per_hour'' \<in> set (columns (order_df s'))"
    using c n2 by auto
  ultimately show ?thesis using c by auto
qed

lemma prepare_columns_present:
  assumes "''contribution_margin'' \<in> set (columns (order_df self))"
      and "''margin_per_hour'' \<in> set (columns (order_df self))"
  shows "prepare_columns self = Inr self"
  using assms by (simp add: prepare_columns_def bindE_def)

text \<open>
  A table with a zero processing time and a contribution margin that is already
  present: the margin is kept as it is, and the margin per hour is infinite.
\<close>

lemma prepare_columns_example:
  "prepare_columns
     \<lparr>order_df = [(''profit'', [Num 100]), (''costs'', [Num 20]),
                  (''processing_time_hr'', [Num 0]), (''contribution_margin'', [Num 7])],
      client_dict = [], bad_orders = None\<rparr>
   = Inr \<lparr>order_df = [(''profit'', [Num 100]), (''costs'', [Num 20]),
                  (''processing_time_hr'', [Num 0]), (''contribution_margin'', [Num 7]),
                  (''margin_per_hour'', [PInf])],
      client_dict = [], bad_orders = None\<rparr>"
  by (simp add: prepare_columns_def columns_def get_col_def bindE_def series_op_def setitem_def)

text \<open>
  C8. The metric deriver is idempotent: a second run on the enriched table returns the
  table of the first run, and a derived column that was present before the first run
  is left as it was.
\<close>

theorem prepare_columns_idempotent:
  assumes "prepare_columns self = Inr s1"
  shows "prepare_columns s1 = Inr s1
       \<and> (\<forall>name \<in> {''contribution_margin'', ''margin_per_hour''}.
            name \<in> set (columns (order_df self)) \<longrightarrow>
            get_col (order_df s1) name = get_col (order_df self) name)"
proof -
  from prepare_columns_frame [OF assms] obtain new where
    n: "order_df s1 = order_df self @ new"
    and p: "''contribution_margin'' \<in> set (columns (order_df s1))"
           "''margin_per_hour'' \<in> set (columns (order_df s1))"
    by blast
  have "prepare_columns s1 = Inr s1" using p by (rule prepare_columns_present)
  moreover have "\<forall>name \<in> {''contribution_margin'', ''margin_per_hour''}.
            name \<in> set (columns (order_df self)) \<longrightarrow>
            get_col (order_df s1) name = get_col (order_df self) name"
    using n by (simp add: get_col_append)
  ultimately show ?thesis by blast
qed

theorem prepare_columns_idempotent_witness:
  "prepare_columns
     \<lparr>order_df = [(''profit'', [Num 100]), (''costs'', [Num 20]),
                  (''processing_time_hr'', [Num 0]), (''contribution_margin'', [Num 7]),
                  (''margin_per_hour'', [PInf])],
      client_dict = [], bad_orders = None\<rparr>
   = Inr \<lparr>order_df = [(''profit'', [Num 100]), (''costs'', [Num 20]),
                  (''processing_time_hr'', [Num 0]), (''contribution_margin'', [Num 7]),
                  (''margin_per_hour'', [PInf])],
      client_dict = [], bad_orders = None\<rparr>
   \<and> get_col [(''profit'', [Num 100]), (''costs'', [Num 20]),
              (''processing_time_hr'', [Num 0]), (''contribution_margin'', [Num 7]),
              (''margin_per_hour'', [PInf])] ''contribution_margin'' = Inr [Num 7]"
  using prepare_columns_idempotent [OF prepare_columns_example]
  by (simp add: columns_def get_col_def)

text \<open>
  C9. The analyzer's table after \<^verbatim>\<open>__init__\<close> is the input table followed by new
  columns, all of them labelled \<^verbatim>\<open>contribution_margin\<close> or \<^verbatim>\<open>margin_per_hour\<close>: the
  existing columns, and with them the rows, are present, unchanged and in their order.
  It is the table held in \<open>order_df\<close>, the one the analyses read, that carries the two
  derived columns; the other fields of the analyzer are as \<^verbatim>\<open>__init__\<close> set them.
\<close>

theorem init_appends_only:
  assumes "init df = Inr self"
  shows "\<exists>new. order_df self = df @ new
           \<and> set (columns new) \<subseteq> {''contribution_margin'', ''margin_per_hour''}
           \<and> ''contribution_margin'' \<in> set (columns (order_df self))
           \<and> ''margin_per_hour'' \<in> set (columns (order_df self))
           \<and> client_dict self = [] \<and> bad_orders self = None"
  using prepare_columns_frame [of "\<lparr>order_df = df, client_dict = [], bad_orders = None\<rparr>" self] assms
  by (auto simp: init_def)

theorem init_appends_only_witness:
  "init [(''profit'', [Num 100]), (''costs'', [Num 20]),
         (''processing_time_hr'', [Num 0]), (''contribution_margin'', [Num 7])]
   = Inr \<lparr>order_df = [(''profit'', [Num 100]), (''costs'', [Num 20]),
                  (''processing_time_hr'', [Num 0]), (''contribution_margin'', [Num 7]),
                  (''margin_per_hour'', [PInf])],
      client_dict = [], bad_orders = None\<rparr>
   \<and> (\<exists>new. [(''profit'', [Num 100]), (''costs'', [Num 20]),
            (''processing_time_hr'', [Num 0]), (''contribution_margin'', [Num 7]),
            (''margin_per_hour'', [PInf])]
        = [(''profit'', [Num 100]), (''costs'', [Num 20]),
           (''processing_time_hr'', [Num 0]), (''contribution_margin'', [Num 7])] @ new
      \<and> set (columns new) \<subseteq> {''contribution_margin'', ''margin_per_hour''})"
  using init_appends_only [OF prepare_columns_example [folded init_def]]
        prepare_columns_example [folded init_def]
  by auto

subsection \<open>Value objects\<close>

text \<open>
  C6. Construction of a RISK or a GAIN succeeds exactly for the integers from 1 to 10
  and raises the validation error otherwise; every constructed instance has a value in
  that range.
\<close>

theorem RISK_GAIN_validated:
  "new_RISK v = (if 1 \<le> v \<and> v \<le> 10 then Inr (RISK v)
                 else Inl (ValidationError ''RISK must be between 1 and 10''))
   \<and> new_GAIN v = (if 1 \<le> v \<and> v \<le> 10 then Inr (GAIN v)
                   else Inl (ValidationError ''GAIN must be between 1 and 10''))
   \<and> (\<forall>r. new_RISK v = Inr r \<longrightarrow> 1 \<le> risk_value r \<and> risk_value r \<le> 10)
   \<and> (\<forall>g. new_GAIN v = Inr g \<longrightarrow> 1 \<le> gain_value g \<and> gain_value g \<le> 10)"
  by (auto simp: new_RISK_def new_GAIN_def Let_def)

theorem RISK_GAIN_validated_witness:
  "new_RISK 10 = Inr (RISK 10) \<and> new_GAIN 1 = Inr (GAIN 1)
   \<and> new_RISK 11 = Inl (ValidationError ''RISK must be between 1 and 10'')
   \<and> new_GAIN 0 = Inl (ValidationError ''GAIN must be between 1 and 10'')
   \<and> 1 \<le> risk_value (RISK 10) \<and> risk_value (RISK 10) \<le> 10
   \<and> 1 \<le> gain_value (GAIN 1) \<and> gain_value (GAIN 1) \<le> 10"
  using RISK_GAIN_validated [of 10] RISK_GAIN_validated [of 1]
        RISK_GAIN_validated [of 11] RISK_GAIN_validated [of 0]
  by simp

subsection \<open>Columns, clamp and classification\<close>



lemma clip_range: "1 \<le> clip x 1 10 \<and> clip x 1 10 \<le> 10"
  by (simp add: clip_def)

lemma new_GAIN_5: "new_GAIN 5 = Inr (GAIN 5)"
  by (simp add: new_GAIN_def Let_def)

text \<open>
  C3. The label printed for a client is the label of the first of the five rules that
  holds, and it is one of the five labels; each label is printed exactly on the triples
  that meet its rule and none of the rules before it.
\<close>

theorem classification_first_match:
  "first_match label_rules gain risk variance = Some (classification gain risk variance)
   \<and> classification gain risk variance
       \<in> {''Profitable but risky'', ''Unprofitable but stable'', ''Strong client'',
          ''Risk exposure'', ''Neutral''}
   \<and> (classification gain risk variance = ''Profitable but risky''
        \<longleftrightarrow> 6 \<le> gain \<and> (6 \<le> risk \<or> 60 \<le> variance))
   \<and> (classification gain risk variance = ''Unprofitable but stable''
        \<longleftrightarrow> gain \<le> 4 \<and> risk \<le> 4 \<and> variance \<le> 40)
   \<and> (classification gain risk variance = ''Strong client''
        \<longleftrightarrow> 6 \<le> gain \<and> risk < 6 \<and> variance < 60)
   \<and> (classification gain risk variance = ''Risk exposure''
        \<longleftrightarrow> gain < 6 \<and> (6 \<le> risk \<or> 60 \<le> variance))
   \<and> (classification gain risk variance = ''Neutral''
        \<longleftrightarrow> gain < 6 \<and> risk < 6 \<and> variance < 60
            \<and> (4 < gain \<or> 4 < risk \<or> 40 < variance))"
proof -
  have first: "first_match label_rules gain risk variance
               = Some (classification gain risk variance)"
    by (simp add: label_rules_def classification_def)
  have member: "classification gain risk variance
       \<in> {''Profitable but risky'', ''Unprofitable but stable'', ''Strong client'',
          ''Risk exposure'', ''Neutral''}"
    by (simp add: classification_def)
  have r1: "classification gain risk variance = ''Profitable but risky''
        \<longleftrightarrow> 6 \<le> gain \<and> (6 \<le> risk \<or> 60 \<le> variance)"
    by (simp add: classification_def)
  have r2: "classification gain risk variance = ''Unprofitable but stable''
        \<longleftrightarrow> gain \<le> 4 \<and> risk \<le> 4 \<and> variance \<le> 40"
    by (auto simp: classification_def)
  have r3: "classification gain risk variance = ''Strong client''
        \<longleftrightarrow> 6 \<le> gain \<and> risk < 6 \<and> variance < 60"
    by (auto simp: classification_def)
  have r4: "classification gain risk variance = ''Risk exposure''
        \<longleftrightarrow> gain < 6 \<and> (6 \<le> risk \<or> 60 \<le> variance)"
    by (auto simp: classification_def)
  have r5: "classification gain risk variance = ''Neutral''
        \<longleftrightarrow> gain < 6 \<and> risk < 6 \<and> variance < 60
            \<and> (4 < gain \<or> 4 < risk \<or> 40 < variance)"
    by (auto simp: classification_def)
  from first member r1 r2 r3 r4 r5 show ?thesis by blast
qed

theorem classification_first_match_witness:
  "classification 7 3 75 = ''Profitable but risky''
   \<and> classification 2 2 10 = ''Unprofitable but stable''
   \<and> classification 7 3 10 = ''Strong client''
   \<and> classification 5 8 10 = ''Risk exposure''
   \<and> classification 5 5 50 = ''Neutral''"
proof -
  have "classification 7 3 75 = ''Profitable but risky''"
    using classification_first_match [of 7 3 75, THEN conjunct2, THEN conjunct2, THEN conjunct1]
    by simp
  moreover have "classification 2 2 10 = ''Unprofitable but stable''"
    using classification_first_match [of 2 2 10, THEN conjunct2, THEN conjunct2, THEN conjunct2,
        THEN conjunct1]
    by simp
  moreover have "classification 7 3 10 = ''Strong client''"
    using classification_first_match [of 7 3 10, THEN conjunct2, THEN conjunct2, THEN conjunct2,
        THEN conjunct2, THEN conjunct1]
    by simp
  moreover have "classification 5 8 10 = ''Risk exposure''"
    using classification_first_match [of 5 8 10, THEN conjunct2, THEN conjunct2, THEN conjunct2,
        THEN conjunct2, THEN conjunct2, THEN conjunct1]
    by simp
  moreover have "classification 5 5 50 = ''Neutral''"
    using classification_first_match [of 5 5 50, THEN conjunct2, THEN conjunct2, THEN conjunct2,
        THEN conjunct2, THEN conjunct2, THEN conjunct2]
    by simp
  ultimately show ?thesis by blast
qed

subsection \<open>Sorting and row selection\<close>

















subsection \<open>The floating-point library\<close>


lemma roundoff_pos: "0 \<le> roundoff"
  by (simp add: roundoff_def)

lemma tiny_pos: "0 \<le> tiny"
  unfolding tiny_def by (rule divide_nonneg_pos) simp_all

lemma close_to_refl: "close_to x x"
  unfolding close_to_def using roundoff_pos tiny_pos by (simp add: mult_nonneg_nonneg)

lemma accurate_unfold:
  assumes "accurate fl"
  shows "(\<forall>xs. xs \<noteq> [] \<and> length xs \<le> 2 ^ 20 \<and> list_all (\<lambda>x. \<bar>x\<bar> \<le> 2 ^ 500) xs \<longrightarrow>
        (\<exists>m. fl_mean fl (map Num xs) = Num m
           \<and> \<bar>m - mean xs\<bar> \<le> mean (map abs xs) / 2 ^ 30 + tiny))
   \<and> (\<forall>a b. \<bar>a + b\<bar> \<le> huge \<longrightarrow>
        (\<exists>r. fl_add fl (Num a) (Num b) = Num r \<and> close_to r (a + b)))
   \<and> (\<forall>a b. \<bar>a - b\<bar> \<le> huge \<longrightarrow>
        (\<exists>r. fl_sub fl (Num a) (Num b) = Num r \<and> close_to r (a - b)))
   \<and> (\<forall>a b. \<bar>a * b\<bar> \<le> huge \<longrightarrow>
        (\<exists>r. fl_mul fl (Num a) (Num b) = Num r \<and> close_to r (a * b)))
   \<and> (\<forall>a b. b \<noteq> 0 \<and> \<bar>a / b\<bar> \<le> huge \<longrightarrow>
        (\<exists>r. fl_div fl (Num a) (Num b) = Num r \<and> close_to r (a / b)))
   \<and> (\<forall>x. \<bar>x\<bar> \<le> 700 \<longrightarrow>
        (\<exists>e. fl_exp fl (Num x) = Num e \<and> \<bar>e - exp x\<bar> \<le> exp x / 2 ^ 40))
   \<and> (\<forall>x n q. 0 < n \<and> 0 \<le> q \<and> q \<le> 100 \<longrightarrow>
        fl_percentile fl (replicate n (Num x)) q = Some (Num x))"
  using assms unfolding accurate_def .

lemmas accurate_mean = accurate_unfold [THEN conjunct1, rule_format]
lemmas accurate_add = accurate_unfold [THEN conjunct2, THEN conjunct1, rule_format]
lemmas accurate_sub = accurate_unfold [THEN conjunct2, THEN conjunct2, THEN conjunct1, rule_format]
lemmas accurate_mul =
  accurate_unfold [THEN conjunct2, THEN conjunct2, THEN conjunct2, THEN conjunct1, rule_format]
lemmas accurate_div =
  accurate_unfold [THEN conjunct2, THEN conjunct2, THEN conjunct2, THEN conjunct2,
    THEN conjunct1, rule_format]
lemmas accurate_exp =
  accurate_unfold [THEN conjunct2, THEN conjunct2, THEN conjunct2, THEN conjunct2,
    THEN conjunct2, THEN conjunct1, rule_format]

lemma foldr_cell_add: "foldr cell_add (map Num xs) (Num 0) = Num (sum_list xs)"
  by (induction xs) simp_all

lemma filter_not_nan: "filter (\<lambda>v. v \<noteq> NaN) (map Num xs) = map Num xs"
  by (induction xs) simp_all

lemma cell_mean_finite: "xs \<noteq> [] \<Longrightarrow> cell_mean (map Num xs) = Num (mean xs)"
  by (simp add: cell_mean_def filter_not_nan foldr_cell_add mean_def)


lemma finite_values_map_Num: "finite_values (map Num xs) = xs"
  by (induction xs) simp_all

lemma cell_lerp_Num: "cell_lerp (Num a) (Num b) t = Num (lerp a b t)"
  by (simp add: cell_lerp_def lerp_def)

lemma percentile_index:
  assumes "0 < n" and "0 \<le> q" and "q \<le> 100"
  shows "nat \<lfloor>(real n - 1) * (q / 100)\<rfloor> < n"
proof -
  define v where "v = (real n - 1) * (q / 100)"
  have "v \<le> (real n - 1) * 1"
    unfolding v_def using assms by (intro mult_left_mono) auto
  then have "v < real n" by simp
  then have "\<lfloor>v\<rfloor> < int n" by (simp add: floor_less_iff)
  then show ?thesis unfolding v_def [symmetric] using assms(1) by linarith
qed

lemma cell_percentile_finite:
  assumes "xs \<noteq> []" and "0 \<le> q" and "q \<le> 100"
  shows "cell_percentile (map Num xs) q = Some (Num (percentile xs q))"
proof -
  have n: "NaN \<notin> set (map Num xs)" by auto
  have f1: "filter (\<lambda>v. v = NInf) (map Num xs) = []" by (induction xs) simp_all
  have f2: "filter (\<lambda>v. v = PInf) (map Num xs) = []" by (induction xs) simp_all
  define s where "s = sort xs"
  define lo where "lo = nat \<lfloor>(real (length s) - 1) * (q / 100)\<rfloor>"
  define hi where "hi = min (lo + 1) (length s - 1)"
  have ls: "length s = length xs" by (simp add: s_def)
  have pos: "0 < length s" using assms(1) by (simp add: ls)
  have lo: "lo < length s" unfolding lo_def using pos assms(2,3) by (rule percentile_index)
  have hi: "hi < length s" unfolding hi_def using pos by arith
  have "cell_percentile (map Num xs) q
        = Some (cell_lerp (map Num s ! lo) (map Num s ! hi)
                  ((real (length s) - 1) * (q / 100) - real lo))"
    using assms(1) n
    unfolding cell_percentile_def Let_def f1 f2 finite_values_map_Num s_def [symmetric]
      lo_def hi_def
    by simp
  also have "\<dots> = Some (Num (lerp (s ! lo) (s ! hi) ((real (length s) - 1) * (q / 100) - real lo)))"
    using lo hi by (simp add: cell_lerp_Num)
  also have "\<dots> = Some (Num (percentile xs q))"
    unfolding percentile_def Let_def s_def lo_def hi_def by simp
  finally show ?thesis .
qed

lemma percentile_const:
  assumes "\<forall>x \<in> set ms. x = c" and "ms \<noteq> []" and "0 \<le> q" and "q \<le> 100"
  shows "percentile ms q = c"
proof -
  define n where "n = length ms"
  have ms: "ms = replicate n c"
    using assms(1) unfolding n_def by (metis replicate_length_same)
  have n: "0 < n" using assms(2) by (simp add: n_def)
  have s: "sort ms = replicate n c"
    by (subst ms) (simp add: sorted_sort_id sorted_replicate)
  define v where "v = (real n - 1) * (q / 100)"
  have lo: "nat \<lfloor>v\<rfloor> < n" unfolding v_def using n assms(3,4) by (rule percentile_index)
  have hi: "min (nat \<lfloor>v\<rfloor> + 1) (n - 1) < n" using n by simp
  have "percentile ms q
        = lerp (sort ms ! nat \<lfloor>v\<rfloor>) (sort ms ! min (nat \<lfloor>v\<rfloor> + 1) (n - 1))
            (v - real (nat \<lfloor>v\<rfloor>))"
    unfolding percentile_def Let_def v_def n_def by (simp only: length_sort)
  also have "\<dots> = lerp c c (v - real (nat \<lfloor>v\<rfloor>))"
    unfolding s using lo hi by (simp only: nth_replicate)
  also have "\<dots> = c" by (simp add: lerp_def)
  finally show ?thesis .
qed

lemma accurate_exact_lib: "accurate exact_lib"
proof -
  have m: "\<exists>m. fl_mean exact_lib (map Num xs) = Num m
             \<and> \<bar>m - mean xs\<bar> \<le> mean (map abs xs) / 2 ^ 30 + tiny"
    if "xs \<noteq> []" for xs
  proof -
    have "0 \<le> sum_list (map abs xs)" by (rule sum_list_nonneg) auto
    then have "0 \<le> mean (map abs xs)"
      by (simp add: mean_def)
    then show ?thesis using that tiny_pos by (simp add: exact_lib_def cell_mean_finite)
  qed
  have e: "\<exists>e. fl_exp exact_lib (Num x) = Num e \<and> \<bar>e - exp x\<bar> \<le> exp x / 2 ^ 40"
    if "\<bar>x\<bar> \<le> 700" for x
    using that by (simp add: exact_lib_def)
  have p: "fl_percentile exact_lib (replicate n (Num x)) q = Some (Num x)"
    if "0 < n \<and> 0 \<le> q \<and> q \<le> 100" for x n q
  proof -
    have "cell_percentile (map Num (replicate n x)) q = Some (Num (percentile (replicate n x) q))"
      using that by (intro cell_percentile_finite) auto
    moreover have "percentile (replicate n x) q = x"
      using that by (intro percentile_const) auto
    ultimately show ?thesis by (simp add: exact_lib_def)
  qed
  have a: "\<exists>r. fl_add exact_lib (Num a) (Num b) = Num r \<and> close_to r (a + b)" for a b
    by (simp add: exact_lib_def close_to_refl)
  have s: "\<exists>r. fl_sub exact_lib (Num a) (Num b) = Num r \<and> close_to r (a - b)" for a b
    by (simp add: exact_lib_def close_to_refl)
  have t: "\<exists>r. fl_mul exact_lib (Num a) (Num b) = Num r \<and> close_to r (a * b)" for a b
    by (simp add: exact_lib_def close_to_refl)
  have d: "\<exists>r. fl_div exact_lib (Num a) (Num b) = Num r \<and> close_to r (a / b)" if "b \<noteq> 0" for a b
    using that by (simp add: exact_lib_def close_to_refl)
  show ?thesis unfolding accurate_def
  proof (intro conjI allI impI)
    fix xs :: "real list"
    assume "xs \<noteq> [] \<and> length xs \<le> 2 ^ 20 \<and> list_all (\<lambda>x. \<bar>x\<bar> \<le> 2 ^ 500) xs"
    then show "\<exists>m. fl_mean exact_lib (map Num xs) = Num m
                 \<and> \<bar>m - mean xs\<bar> \<le> mean (map abs xs) / 2 ^ 30 + tiny"
      using m by blast
  next
    fix a b :: real
    show "\<exists>r. fl_add exact_lib (Num a) (Num b) = Num r \<and> close_to r (a + b)" by (rule a)
    show "\<exists>r. fl_sub exact_lib (Num a) (Num b) = Num r \<and> close_to r (a - b)" by (rule s)
    show "\<exists>r. fl_mul exact_lib (Num a) (Num b) = Num r \<and> close_to r (a * b)" by (rule t)
  next
    fix a b :: real
    assume "b \<noteq> 0 \<and> \<bar>a / b\<bar> \<le> huge"
    then show "\<exists>r. fl_div exact_lib (Num a) (Num b) = Num r \<and> close_to r (a / b)"
      using d by blast
  next
    fix x :: real
    assume "\<bar>x\<bar> \<le> 700"
    then show "\<exists>e. fl_exp exact_lib (Num x) = Num e \<and> \<bar>e - exp x\<bar> \<le> exp x / 2 ^ 40"
      by (rule e)
  next
    fix x :: real and n :: nat and q :: real
    assume "0 < n \<and> 0 \<le> q \<and> q \<le> 100"
    then show "fl_percentile exact_lib (replicate n (Num x)) q = Some (Num x)" by (rule p)
  qed
qed

subsection \<open>The scorer\<close>

lemma py_int_no_validation: "py_int s \<noteq> Inl (ValidationError msg)"
  by (cases s) simp_all

lemma risk_score_of_no_validation: "risk_score_of fl s \<noteq> Inl (ValidationError msg)"
  by (cases s) (simp_all add: risk_score_of_def np_clip_int_def bindE_def)

lemma risk_score_of_range:
  "risk_score_of fl s = Inr k \<Longrightarrow> 1 \<le> k \<and> k \<le> 10"
  by (cases s) (auto simp: risk_score_of_def np_clip_int_def clip_def bindE_def split: if_splits)

lemma gain_score_of_no_validation: "gain_score_of s \<noteq> Inl (ValidationError msg)"
  unfolding gain_score_of_def by (rule py_int_no_validation)

lemma py_int_clip_range:
  "py_int (np_clip c 1 10) = Inr k \<Longrightarrow> 1 \<le> k \<and> k \<le> 10"
proof (cases c)
  case (Num x)
  assume a: "py_int (np_clip c 1 10) = Inr k"
  let ?y = "min (max x 1) 10"
  have y: "1 \<le> ?y" "?y \<le> 10" by auto
  have "0 \<le> max x 1" by simp
  with a Num have k: "k = \<lfloor>?y\<rfloor>" by auto
  have "1 \<le> \<lfloor>?y\<rfloor>" using y(1) by (simp add: le_floor_iff)
  moreover have "\<lfloor>?y\<rfloor> \<le> 10" using y(2) by (simp add: floor_le_iff)
  ultimately show ?thesis using k by simp
qed simp_all

lemma gain_score_of_range:
  "gain_score_of s = Inr k \<Longrightarrow> 1 \<le> k \<and> k \<le> 10"
  unfolding gain_score_of_def by (rule py_int_clip_range)

lemma new_RISK_ok: "1 \<le> k \<Longrightarrow> k \<le> 10 \<Longrightarrow> new_RISK k = Inr (RISK k)"
  by (simp add: new_RISK_def)

lemma new_GAIN_ok: "1 \<le> k \<Longrightarrow> k \<le> 10 \<Longrightarrow> new_GAIN k = Inr (GAIN k)"
  by (simp add: new_GAIN_def)

lemma roundoff_le: "roundoff \<le> 1 / 10 ^ 15"
  unfolding roundoff_def by simp

lemma tiny_le: "tiny \<le> 1 / 10 ^ 15"
proof -
  have a: "(2::real) ^ 52 \<le> 2 ^ 1000" by (rule power_increasing) simp_all
  have b: "(10::real) ^ 15 \<le> 2 ^ 52" by simp
  have c: "(10::real) ^ 15 \<le> 2 ^ 1000" using a b by (rule order_trans [rotated])
  have "1 / (2::real) ^ 1000 \<le> 1 / 10 ^ 15"
    by (rule divide_left_mono [OF c]) (simp_all only: zero_le_one, rule mult_pos_pos, simp_all only: zero_less_power zero_less_numeral)
  then show ?thesis unfolding tiny_def .
qed

lemma huge_ge: "10 ^ 5 \<le> huge"
proof -
  have a: "(2::real) ^ 20 \<le> 2 ^ 1000" by (rule power_increasing) simp_all
  have b: "(10::real) ^ 5 \<le> 2 ^ 20" by simp
  show ?thesis unfolding huge_def using a b by (rule order_trans [rotated])
qed

lemma close_to_bound:
  assumes "close_to r x" and "\<bar>x\<bar> \<le> 10 ^ 5"
  shows "\<bar>r - x\<bar> \<le> 1 / 10 ^ 9"
proof -
  have "\<bar>x\<bar> * roundoff \<le> 10 ^ 5 * (1 / 10 ^ 15)"
    by (rule mult_mono [OF assms(2) roundoff_le _ roundoff_pos]) simp
  moreover have "\<bar>r - x\<bar> \<le> \<bar>x\<bar> * roundoff + tiny" using assms(1) unfolding close_to_def .
  ultimately have "\<bar>r - x\<bar> \<le> 10 ^ 5 * (1 / 10 ^ 15) + 1 / 10 ^ 15" using tiny_le by linarith
  also have "\<dots> \<le> 1 / 10 ^ 9" by simp
  finally show ?thesis .
qed

lemma exp_le_3: "x \<le> 1 \<Longrightarrow> exp (x::real) \<le> 3"
proof -
  assume "x \<le> 1"
  then have "exp x \<le> exp 1" by simp
  then show ?thesis using exp_le by linarith
qed

lemma raw_risk_score_accurate:
  assumes acc: "accurate fl" and m: "- 1 \<le> m" "m \<le> 101"
  shows "\<exists>d e x. \<bar>d - (- m / 20)\<bar> \<le> 1 / 10 ^ 9
           \<and> \<bar>e - exp d\<bar> \<le> exp d / 2 ^ 40
           \<and> raw_risk_score fl (Num m) = Num x
           \<and> \<bar>x - (1 + 9 * (1 - e))\<bar> \<le> 1 / 10 ^ 6"
proof -
  have hq: "\<bar>- m / 20\<bar> \<le> 10 ^ 5" using m by (simp add: abs_if)
  have "(20::real) \<noteq> 0 \<and> \<bar>- m / 20\<bar> \<le> huge" using hq huge_ge by linarith
  from accurate_div [OF acc this]
  obtain d where d: "fl_div fl (Num (- m)) (Num 20) = Num d" "close_to d (- m / 20)" by blast
  have db: "\<bar>d - (- m / 20)\<bar> \<le> 1 / 10 ^ 9" by (rule close_to_bound [OF d(2) hq])
  have d1: "d \<le> 1" "\<bar>d\<bar> \<le> 700" using db m by (simp_all add: abs_if split: if_splits)
  from accurate_exp [OF acc d1(2)]
  obtain e where e: "fl_exp fl (Num d) = Num e" "\<bar>e - exp d\<bar> \<le> exp d / 2 ^ 40" by blast
  have ed: "0 < exp d" "exp d \<le> 3" using exp_le_3 [OF d1(1)] by simp_all
  have "exp d / 2 ^ 40 \<le> exp d" using ed(1) by (simp add: field_simps)
  with e(2) ed have eb: "0 \<le> e" "e \<le> 6" by (simp_all add: abs_if split: if_splits)
  have h1: "\<bar>1 - e\<bar> \<le> 10 ^ 5" using eb by (simp add: abs_if)
  have "\<bar>1 - e\<bar> \<le> huge" using h1 huge_ge by linarith
  from accurate_sub [OF acc this]
  obtain s where s: "fl_sub fl (Num 1) (Num e) = Num s" "close_to s (1 - e)" by blast
  have sb: "\<bar>s - (1 - e)\<bar> \<le> 1 / 10 ^ 9" by (rule close_to_bound [OF s(2) h1])
  have s1: "- 6 \<le> s" "s \<le> 2" using sb eb by (simp_all add: abs_if split: if_splits)
  have h2: "\<bar>9 * s\<bar> \<le> 10 ^ 5" using s1 by (simp add: abs_if)
  have "\<bar>9 * s\<bar> \<le> huge" using h2 huge_ge by linarith
  from accurate_mul [OF acc this]
  obtain p where p: "fl_mul fl (Num 9) (Num s) = Num p" "close_to p (9 * s)" by blast
  have pb: "\<bar>p - 9 * s\<bar> \<le> 1 / 10 ^ 9" by (rule close_to_bound [OF p(2) h2])
  have p1: "- 55 \<le> p" "p \<le> 19" using pb s1 by (simp_all add: abs_if split: if_splits)
  have h3: "\<bar>1 + p\<bar> \<le> 10 ^ 5" using p1 by (simp add: abs_if)
  have "\<bar>1 + p\<bar> \<le> huge" using h3 huge_ge by linarith
  from accurate_add [OF acc this]
  obtain x where x: "fl_add fl (Num 1) (Num p) = Num x" "close_to x (1 + p)" by blast
  have xb: "\<bar>x - (1 + p)\<bar> \<le> 1 / 10 ^ 9" by (rule close_to_bound [OF x(2) h3])
  have r: "raw_risk_score fl (Num m) = Num x"
    by (simp add: raw_risk_score_def d(1) e(1) s(1) p(1) x(1))
  have "\<bar>x - (1 + 9 * (1 - e))\<bar> \<le> 1 / 10 ^ 6"
    using xb pb sb by (simp add: abs_if split: if_splits)
  with db e(2) r show ?thesis by blast
qed

lemma calculate_risk_eq:
  "calculate_risk fl df =
     bindE (get_col df ''risk (in percent)'') (\<lambda>c.
       if list_ex is_str c then Inl TypeError
       else bindE (risk_score_of fl (raw_risk_score fl (fl_mean fl c)))
              (\<lambda>k. Inr (RISK k, fl_var fl c)))"
proof -
  have eq: "bindE (risk_score_of fl s) (\<lambda>k. bindE (new_RISK k) (\<lambda>r. Inr (r, v)))
        = bindE (risk_score_of fl s) (\<lambda>k. Inr (RISK k, v))" for s v
  proof (cases "risk_score_of fl s")
    case (Inr k)
    from risk_score_of_range [OF Inr] have "new_RISK k = Inr (RISK k)" by (simp add: new_RISK_ok)
    with Inr show ?thesis by (simp add: bindE_def)
  qed (simp add: bindE_def)
  show ?thesis unfolding calculate_risk_def Let_def eq ..
qed

lemma calculate_gain_eq:
  "calculate_gain fl df =
     bindE (get_col df ''margin_per_hour'') (\<lambda>c.
       if list_ex is_str c then Inl TypeError
       else case fl_percentile fl c 10 of
              None \<Rightarrow> Inl NumpyError
            | Some p10 \<Rightarrow>
                (case fl_percentile fl c 90 of
                   None \<Rightarrow> Inl NumpyError
                 | Some p90 \<Rightarrow>
                     bindE (if float_eq p90 p10 then Inr 5
                            else gain_score_of (raw_gain_score fl (fl_mean fl c) p10 p90))
                       (\<lambda>k. Inr (GAIN k))))"
proof -
  have eq: "bindE (if b then Inr 5 else gain_score_of s) new_GAIN
        = bindE (if b then Inr 5 else gain_score_of s) (\<lambda>k. Inr (GAIN k))" for s b
  proof (cases b)
    case True
    then show ?thesis by (simp add: bindE_def new_GAIN_5)
  next
    case False
    show ?thesis
    proof (cases "gain_score_of s")
      case (Inr k)
      from gain_score_of_range [OF Inr] have "new_GAIN k = Inr (GAIN k)" by (simp add: new_GAIN_ok)
      with Inr False show ?thesis by (simp add: bindE_def)
    qed (simp add: bindE_def False)
  qed
  show ?thesis unfolding calculate_gain_def Let_def eq ..
qed

lemma gain_score_of_Num: "gain_score_of (Num x) = Inr (clip (round_half_even x) 1 10)"
proof -
  let ?r = "round_half_even x"
  have "min (max (real_of_int ?r) 1) 10 = real_of_int (clip ?r 1 10)"
    by (simp add: clip_def min_def max_def)
  moreover have "0 \<le> clip ?r 1 10" by (simp add: clip_def)
  ultimately show ?thesis by (simp add: gain_score_of_def)
qed

lemma risk_score_of_Num:
  "- (2 ^ 63) \<le> round_half_even x \<and> round_half_even x < 2 ^ 63 \<Longrightarrow>
   risk_score_of fl (Num x) = Inr (clip (round_half_even x) 1 10)"
  by (simp add: risk_score_of_def np_clip_int_def bindE_def)

lemma round_half_even_bounds:
  "real_of_int (round_half_even x) \<le> x + 1 / 2 \<and> x - 1 / 2 \<le> real_of_int (round_half_even x)"
  unfolding round_half_even_def Let_def by (simp; linarith)

lemma no_str_map_Num: "\<not> list_ex is_str (map Num xs)"
  by (induction xs) simp_all

lemma sum_list_bounds:
  "list_all (\<lambda>r. 0 \<le> r \<and> r \<le> c) rs \<Longrightarrow> 0 \<le> sum_list rs \<and> sum_list rs \<le> c * real (length rs)"
  by (induction rs) (auto simp: algebra_simps)

lemma mean_bounds:
  assumes "rs \<noteq> []" and "list_all (\<lambda>r. 0 \<le> r \<and> r \<le> c) rs"
  shows "0 \<le> mean rs \<and> mean rs \<le> c"
proof -
  have "0 < real (length rs)" using assms(1) by simp
  with sum_list_bounds [OF assms(2)] show ?thesis
    by (simp add: mean_def pos_divide_le_eq)
qed

lemma risk_mean_accurate:
  assumes acc: "accurate fl" and ne: "rs \<noteq> []" and len: "length rs \<le> 2 ^ 20"
    and rng: "list_all (\<lambda>r. 0 \<le> r \<and> r \<le> 100) rs"
  shows "\<exists>m. fl_mean fl (map Num rs) = Num m \<and> \<bar>m - mean rs\<bar> \<le> 1 / 10 ^ 6"
proof -
  have a: "(100::real) \<le> 2 ^ 500"
  proof -
    have "(2::real) ^ 7 \<le> 2 ^ 500" by (rule power_increasing) simp_all
    moreover have "(100::real) \<le> 2 ^ 7" by simp
    ultimately show ?thesis by (rule order_trans [rotated])
  qed
  have "\<bar>x\<bar> \<le> 2 ^ 500" if "0 \<le> x \<and> x \<le> 100" for x :: real
    using that a by linarith
  with rng have b: "list_all (\<lambda>x. \<bar>x\<bar> \<le> 2 ^ 500) rs"
    unfolding list_all_iff by blast
  have c: "map abs rs = rs" using rng unfolding list_all_iff by (intro map_idI) auto
  from accurate_mean [OF acc, of rs] ne len b
  obtain m where m: "fl_mean fl (map Num rs) = Num m"
    "\<bar>m - mean rs\<bar> \<le> mean (map abs rs) / 2 ^ 30 + tiny" by blast
  have "mean rs \<le> 100" using mean_bounds [OF ne rng] by simp
  then have "mean rs / 2 ^ 30 \<le> 100 / 2 ^ 30" by (simp add: divide_right_mono)
  with m(2) tiny_le have "\<bar>m - mean rs\<bar> \<le> 100 / 2 ^ 30 + 1 / 10 ^ 15" unfolding c by linarith
  also have "\<dots> \<le> 1 / 10 ^ 6" by simp
  finally show ?thesis using m(1) by blast
qed

lemma exp_near_1:
  assumes "\<bar>t\<bar> \<le> 1"
  shows "\<bar>exp t - 1\<bar> \<le> 2 * \<bar>t::real\<bar>"
proof (cases "0 \<le> t")
  case True
  with assms have t: "t \<le> 1" by simp
  have a: "exp t \<le> 1 + t + t\<^sup>2" by (rule exp_bound [OF True t])
  have b: "t\<^sup>2 \<le> t" using True t by (simp add: power2_eq_square mult_left_le)
  have c: "1 + t \<le> exp t" by (rule exp_ge_add_one_self)
  have "\<bar>exp t - 1\<bar> = exp t - 1" using c True by linarith
  moreover have "\<bar>t\<bar> = t" using True by simp
  ultimately show ?thesis using a b by linarith
next
  case False
  have a: "exp t \<le> 1" using False by simp
  have c: "1 + t \<le> exp t" by (rule exp_ge_add_one_self)
  have "\<bar>exp t - 1\<bar> = 1 - exp t" using a by linarith
  moreover have "\<bar>t\<bar> = - t" using False by simp
  ultimately show ?thesis using c False by linarith
qed

lemma risk_formula_bounds: "0 \<le> r \<Longrightarrow> 1 \<le> risk_formula r \<and> risk_formula r \<le> 10"
proof -
  assume r: "0 \<le> r"
  define e where "e = exp (- r / 20)"
  have e: "e \<le> 1" "0 < e" using r unfolding e_def by simp_all
  have "1 \<le> 1 + 9 * (1 - e)" using e by simp
  moreover have "1 + 9 * (1 - e) \<le> 10" using e by simp
  ultimately show ?thesis unfolding risk_formula_def e_def by simp
qed

lemma raw_risk_score_near:
  assumes acc: "accurate fl" and ne: "rs \<noteq> []" and len: "length rs \<le> 2 ^ 20"
    and rng: "list_all (\<lambda>r. 0 \<le> r \<and> r \<le> 100) rs"
  shows "\<exists>x. raw_risk_score fl (fl_mean fl (map Num rs)) = Num x
           \<and> \<bar>x - risk_formula (mean rs)\<bar> \<le> 1 / 10 ^ 5"
proof -
  from risk_mean_accurate [OF assms]
  obtain m where m: "fl_mean fl (map Num rs) = Num m" "\<bar>m - mean rs\<bar> \<le> 1 / 10 ^ 6" by blast
  have mu: "0 \<le> mean rs" "mean rs \<le> 100" using mean_bounds [OF ne rng] by simp_all
  have m1: "- 1 \<le> m" "m \<le> 101" using m(2) mu by (simp_all add: abs_if split: if_splits)
  from raw_risk_score_accurate [OF acc m1]
  obtain d e x where d: "\<bar>d - (- m / 20)\<bar> \<le> 1 / 10 ^ 9"
    and e: "\<bar>e - exp d\<bar> \<le> exp d / 2 ^ 40"
    and x: "raw_risk_score fl (Num m) = Num x" "\<bar>x - (1 + 9 * (1 - e))\<bar> \<le> 1 / 10 ^ 6"
    by blast
  define E where "E = exp (- mean rs / 20)"
  define t where "t = d - (- mean rs / 20)"
  have t: "\<bar>t\<bar> \<le> 1 / 10 ^ 7" using d m(2) unfolding t_def by (simp add: abs_if split: if_splits)
  then have t1: "\<bar>t\<bar> \<le> 1" by simp
  have E: "0 < E" "E \<le> 1" using mu unfolding E_def by simp_all
  have "d = - mean rs / 20 + t" unfolding t_def by simp
  then have "exp d = exp (- mean rs / 20 + t)" by (rule arg_cong)
  then have ed: "exp d = E * exp t" unfolding E_def exp_add .
  have "E * exp t - E = E * (exp t - 1)" by (simp add: algebra_simps)
  then have "\<bar>exp d - E\<bar> = E * \<bar>exp t - 1\<bar>" unfolding ed using E(1)
    by (simp add: abs_mult)
  also have "\<dots> \<le> 1 * (2 * \<bar>t\<bar>)"
    by (rule mult_mono [OF E(2) exp_near_1 [OF t1]]) simp_all
  finally have dE: "\<bar>exp d - E\<bar> \<le> 2 / 10 ^ 7" using t by simp
  have "exp d \<le> 2" using dE E by (simp add: abs_if split: if_splits)
  then have "exp d / 2 ^ 40 \<le> 2 / 2 ^ 40" by (simp add: divide_right_mono)
  also have "\<dots> \<le> (1::real) / 10 ^ 7" by simp
  finally have "\<bar>e - exp d\<bar> \<le> 1 / 10 ^ 7" using e by linarith
  with dE have "\<bar>e - E\<bar> \<le> 3 / 10 ^ 7" by (simp add: abs_if split: if_splits)
  with x(2) have "\<bar>x - risk_formula (mean rs)\<bar> \<le> 1 / 10 ^ 5"
    unfolding risk_formula_def E_def [symmetric] by (simp add: abs_if split: if_splits)
  with x(1) m(1) show ?thesis by simp
qed


lemma calculate_risk_returns:
  assumes acc: "accurate fl" and ne: "rs \<noteq> []" and len: "length rs \<le> 2 ^ 20"
    and rng: "list_all (\<lambda>r. 0 \<le> r \<and> r \<le> 100) rs"
    and col: "get_col df ''risk (in percent)'' = Inr (map Num rs)"
  shows "\<exists>k. calculate_risk fl df = Inr (RISK k, fl_var fl (map Num rs)) \<and> 1 \<le> k \<and> k \<le> 10"
proof -
  from raw_risk_score_near [OF acc ne len rng]
  obtain x where x: "raw_risk_score fl (fl_mean fl (map Num rs)) = Num x"
    "\<bar>x - risk_formula (mean rs)\<bar> \<le> 1 / 10 ^ 5" by blast
  have mu: "0 \<le> mean rs" using mean_bounds [OF ne rng] by simp
  note F = risk_formula_bounds [OF mu]
  have xb: "0 \<le> x" "x \<le> 11" using x(2) F by (simp_all add: abs_if split: if_splits)
  have "- 1 < real_of_int (round_half_even x)"
    using round_half_even_bounds [of x] xb by linarith
  moreover have "real_of_int (round_half_even x) < 12"
    using round_half_even_bounds [of x] xb by linarith
  ultimately have "- 1 < round_half_even x \<and> round_half_even x < 12" by simp
  then have "risk_score_of fl (Num x) = Inr (clip (round_half_even x) 1 10)"
    by (intro risk_score_of_Num) simp
  then have "calculate_risk fl df
             = Inr (RISK (clip (round_half_even x) 1 10), fl_var fl (map Num rs))"
    by (simp add: calculate_risk_eq col no_str_map_Num x(1) bindE_def)
  then show ?thesis using clip_range by blast
qed



lemma calculate_gain_branches:
  assumes col: "get_col df ''margin_per_hour'' = Inr c" and ns: "\<not> list_ex is_str c"
    and p10: "fl_percentile fl c 10 = Some p10" and p90: "fl_percentile fl c 90 = Some p90"
  shows "calculate_gain fl df =
           (if float_eq p90 p10 then Inr (GAIN 5)
            else bindE (gain_score_of (raw_gain_score fl (fl_mean fl c) p10 p90))
                   (\<lambda>k. Inr (GAIN k)))"
  by (simp add: calculate_gain_eq col ns p10 p90 bindE_def)



subsection \<open>Risk score\<close>





subsection \<open>Gain score\<close>





subsection \<open>Validation and rounding\<close>

lemma calculate_risk_no_validation:
  "calculate_risk fl df \<noteq> Inl (ValidationError msg)"
proof (cases "get_col df ''risk (in percent)''")
  case (Inl e)
  then have "e = KeyError ''risk (in percent)''"
    by (simp add: get_col_def split: option.splits)
  with Inl show ?thesis by (simp add: calculate_risk_eq bindE_def)
next
  case (Inr c)
  show ?thesis
  proof (cases "risk_score_of fl (raw_risk_score fl (fl_mean fl c))")
    case (Inl e)
    then have "e \<noteq> ValidationError msg" using risk_score_of_no_validation by metis
    with Inl Inr show ?thesis by (simp add: calculate_risk_eq bindE_def)
  next
    case (Inr k)
    with \<open>get_col df ''risk (in percent)'' = Inr c\<close> show ?thesis
      by (simp add: calculate_risk_eq bindE_def)
  qed
qed

lemma calculate_gain_no_validation:
  "calculate_gain fl df \<noteq> Inl (ValidationError msg)"
proof (cases "get_col df ''margin_per_hour''")
  case (Inl e)
  then have "e = KeyError ''margin_per_hour''"
    by (simp add: get_col_def split: option.splits)
  with Inl show ?thesis by (simp add: calculate_gain_eq bindE_def)
next
  case (Inr c)
  have "bindE (if b then Inr 5 else gain_score_of s) (\<lambda>k. Inr (GAIN k))
        \<noteq> Inl (ValidationError msg)" for b s
    using gain_score_of_no_validation [of s msg]
    by (cases "gain_score_of s") (simp_all add: bindE_def)
  with Inr show ?thesis
    by (simp add: calculate_gain_eq bindE_def split: option.splits)
qed

lemma calculate_risk_range:
  "calculate_risk fl df = Inr (r, v) \<Longrightarrow> 1 \<le> risk_value r \<and> risk_value r \<le> 10"
  using risk_score_of_range
  by (auto simp: calculate_risk_eq bindE_Inr_iff split: if_splits)

lemma calculate_gain_range:
  "calculate_gain fl df = Inr g \<Longrightarrow> 1 \<le> gain_value g \<and> gain_value g \<le> 10"
  using gain_score_of_range
  by (auto simp: calculate_gain_eq bindE_Inr_iff split: if_splits option.splits)

text \<open>
  C7. Neither score computation ends in the validation error of RISK or GAIN, for any
  table and any library: the value handed to the constructor is a clamp to 1..10 or
  the constant 5. Every score returned lies in 1..10. The risk computation returns
  for an accurate library on at most \<open>2 ^ 20\<close> rows with risk values from 0 to 100;
  the gain computation returns whenever the percentiles are equal or the rescaled
  value is finite.
\<close>

theorem scores_never_fail_validation:
  "(\<forall>msg. calculate_risk fl client_df \<noteq> Inl (ValidationError msg))
   \<and> (\<forall>msg. calculate_gain fl client_df \<noteq> Inl (ValidationError msg))
   \<and> (\<forall>r v. calculate_risk fl client_df = Inr (r, v) \<longrightarrow>
          1 \<le> risk_value r \<and> risk_value r \<le> 10)
   \<and> (\<forall>g. calculate_gain fl client_df = Inr g \<longrightarrow> 1 \<le> gain_value g \<and> gain_value g \<le> 10)
   \<and> (\<forall>rs. accurate fl \<and> rs \<noteq> [] \<and> length rs \<le> 2 ^ 20
          \<and> list_all (\<lambda>r. 0 \<le> r \<and> r \<le> 100) rs
          \<and> get_col client_df ''risk (in percent)'' = Inr (map Num rs) \<longrightarrow>
          (\<exists>r v. calculate_risk fl client_df = Inr (r, v)))
   \<and> (\<forall>c p10 p90. get_col client_df ''margin_per_hour'' = Inr c \<and> \<not> list_ex is_str c
          \<and> fl_percentile fl c 10 = Some p10 \<and> fl_percentile fl c 90 = Some p90
          \<and> (float_eq p90 p10 \<or> (\<exists>x. raw_gain_score fl (fl_mean fl c) p10 p90 = Num x)) \<longrightarrow>
          (\<exists>g. calculate_gain fl client_df = Inr g))"
proof (intro conjI allI impI)
  fix msg
  show "calculate_risk fl client_df \<noteq> Inl (ValidationError msg)"
    by (rule calculate_risk_no_validation)
  show "calculate_gain fl client_df \<noteq> Inl (ValidationError msg)"
    by (rule calculate_gain_no_validation)
next
  fix r v
  assume a: "calculate_risk fl client_df = Inr (r, v)"
  from calculate_risk_range [OF a] show "1 \<le> risk_value r" "risk_value r \<le> 10" by simp_all
next
  fix g
  assume a: "calculate_gain fl client_df = Inr g"
  from calculate_gain_range [OF a] show "1 \<le> gain_value g" "gain_value g \<le> 10" by simp_all
next
  fix rs
  assume "accurate fl \<and> rs \<noteq> [] \<and> length rs \<le> 2 ^ 20
          \<and> list_all (\<lambda>r. 0 \<le> r \<and> r \<le> 100) rs
          \<and> get_col client_df ''risk (in percent)'' = Inr (map Num rs)"
  then have "\<exists>k. calculate_risk fl client_df = Inr (RISK k, fl_var fl (map Num rs))
               \<and> 1 \<le> k \<and> k \<le> 10"
    by (intro calculate_risk_returns) simp_all
  then show "\<exists>r v. calculate_risk fl client_df = Inr (r, v)" by blast
next
  fix c p10 p90
  assume a: "get_col client_df ''margin_per_hour'' = Inr c \<and> \<not> list_ex is_str c
          \<and> fl_percentile fl c 10 = Some p10 \<and> fl_percentile fl c 90 = Some p90
          \<and> (float_eq p90 p10 \<or> (\<exists>x. raw_gain_score fl (fl_mean fl c) p10 p90 = Num x))"
  then have b: "calculate_gain fl client_df =
           (if float_eq p90 p10 then Inr (GAIN 5)
            else bindE (gain_score_of (raw_gain_score fl (fl_mean fl c) p10 p90))
                   (\<lambda>k. Inr (GAIN k)))"
    by (intro calculate_gain_branches) simp_all
  show "\<exists>g. calculate_gain fl client_df = Inr g"
  proof (cases "float_eq p90 p10")
    case True
    with b show ?thesis by simp
  next
    case False
    with a obtain x where "raw_gain_score fl (fl_mean fl c) p10 p90 = Num x" by blast
    with b False show ?thesis by (simp add: gain_score_of_Num bindE_def)
  qed
qed

lemma example_scores_column:
  "fl_percentile exact_lib [Num (- 3), Num 12] 10 = Some (Num (- 3 / 2))
   \<and> fl_percentile exact_lib [Num (- 3), Num 12] 90 = Some (Num (21 / 2))
   \<and> raw_gain_score exact_lib (fl_mean exact_lib [Num (- 3), Num 12])
        (Num (- 3 / 2)) (Num (21 / 2)) = Num (11 / 2)"
proof -
  have "percentile [- 3, 12] 10 = - 3 / 2"
    by (simp add: percentile_def Let_def lerp_def)
  moreover have "percentile [- 3, 12] 90 = 21 / 2"
    by (simp add: percentile_def Let_def lerp_def)
  moreover have "cell_mean (map Num [- 3, 12]) = Num (9 / 2)"
    by (subst cell_mean_finite) (simp_all add: mean_def)
  ultimately show ?thesis
    using cell_percentile_finite [of "[- 3, 12]" 10] cell_percentile_finite [of "[- 3, 12]" 90]
    by (simp add: exact_lib_def raw_gain_score_def)
qed

theorem scores_never_fail_validation_witness:
  "(\<exists>r v. calculate_risk exact_lib
             [(''risk (in percent)'', [Num 25, Num 40]),
              (''margin_per_hour'', [Num (- 3), Num 12])] = Inr (r, v)
          \<and> 1 \<le> risk_value r \<and> risk_value r \<le> 10)
   \<and> (\<exists>g. calculate_gain exact_lib
             [(''risk (in percent)'', [Num 25, Num 40]),
              (''margin_per_hour'', [Num (- 3), Num 12])] = Inr g
          \<and> 1 \<le> gain_value g \<and> gain_value g \<le> 10)"
proof -
  let ?df = "[(''risk (in percent)'', [Num 25, Num 40]),
              (''margin_per_hour'', [Num (- 3), Num 12])]"
  note t = scores_never_fail_validation [of exact_lib ?df]
  have a: "accurate exact_lib \<and> [25, 40] \<noteq> [] \<and> length [25, 40::real] \<le> 2 ^ 20
          \<and> list_all (\<lambda>r. 0 \<le> r \<and> r \<le> 100) [25, 40::real]
          \<and> get_col ?df ''risk (in percent)'' = Inr (map Num [25, 40])"
    using accurate_exact_lib by (simp add: get_col_def)
  have e: "\<exists>x. raw_gain_score exact_lib (fl_mean exact_lib [Num (- 3), Num 12])
                        (Num (- 3 / 2)) (Num (21 / 2)) = Num x"
    using example_scores_column by blast
  have c: "get_col ?df ''margin_per_hour'' = Inr [Num (- 3), Num 12]
          \<and> \<not> list_ex is_str [Num (- 3), Num 12]" by (simp add: get_col_def)
  have b: "get_col ?df ''margin_per_hour'' = Inr [Num (- 3), Num 12]
          \<and> \<not> list_ex is_str [Num (- 3), Num 12]
          \<and> fl_percentile exact_lib [Num (- 3), Num 12] 10 = Some (Num (- 3 / 2))
          \<and> fl_percentile exact_lib [Num (- 3), Num 12] 90 = Some (Num (21 / 2))
          \<and> (float_eq (Num (21 / 2)) (Num (- 3 / 2))
              \<or> (\<exists>x. raw_gain_score exact_lib (fl_mean exact_lib [Num (- 3), Num 12])
                        (Num (- 3 / 2)) (Num (21 / 2)) = Num x))"
    using example_scores_column e c by blast
  from t [THEN conjunct2, THEN conjunct2, THEN conjunct2, THEN conjunct2, THEN conjunct1,
      rule_format, OF a]
  obtain r v where r: "calculate_risk exact_lib ?df = Inr (r, v)" by blast
  from t [THEN conjunct2, THEN conjunct2, THEN conjunct2, THEN conjunct2, THEN conjunct2,
      rule_format, OF b]
  obtain g where g: "calculate_gain exact_lib ?df = Inr g" by blast
  from t [THEN conjunct2, THEN conjunct2, THEN conjunct1, rule_format, OF r]
  have "1 \<le> risk_value r \<and> risk_value r \<le> 10" .
  moreover from t [THEN conjunct2, THEN conjunct2, THEN conjunct2, THEN conjunct1,
      rule_format, OF g]
  have "1 \<le> gain_value g \<and> gain_value g \<le> 10" .
  ultimately show ?thesis using r g by blast
qed

lemma round_half_even_tie:
  assumes "frac x = 1 / 2"
  shows "even (round_half_even x) \<and> \<bar>real_of_int (round_half_even x) - x\<bar> = 1 / 2"
proof -
  have d: "x - real_of_int \<lfloor>x\<rfloor> = 1 / 2" using assms by (simp add: frac_def)
  then have r: "round_half_even x = (if even \<lfloor>x\<rfloor> then \<lfloor>x\<rfloor> else \<lfloor>x\<rfloor> + 1)"
    by (simp add: round_half_even_def Let_def)
  show ?thesis
  proof (cases "even \<lfloor>x\<rfloor>")
    case True
    with r d show ?thesis by simp
  next
    case False
    with r d show ?thesis by (simp add: abs_if)
  qed
qed

text \<open>
  C10. Both score computations round a tie to the even neighbour. A raw score \<open>x\<close>
  with fractional part one half becomes, in the risk score (\<^verbatim>\<open>round\<close>) and in the gain
  score (\<^verbatim>\<open>np.round\<close>) alike, the clamp of the even integer at distance one half from
  \<open>x\<close>: 5.5 gives 6 and 4.5 gives 4. The two computations are exactly these two
  functions applied to the raw score of the library, followed by the constructor.
\<close>

theorem scores_round_half_to_even:
  "(frac x = 1 / 2 \<and> \<bar>x\<bar> \<le> 2 ^ 52 \<longrightarrow>
      (\<exists>k. even k \<and> \<bar>real_of_int k - x\<bar> = 1 / 2
           \<and> risk_score_of fl (Num x) = Inr (clip k 1 10)
           \<and> gain_score_of (Num x) = Inr (clip k 1 10)))
   \<and> risk_score_of fl (Num (11 / 2)) = Inr 6 \<and> risk_score_of fl (Num (9 / 2)) = Inr 4
   \<and> gain_score_of (Num (11 / 2)) = Inr 6 \<and> gain_score_of (Num (9 / 2)) = Inr 4
   \<and> calculate_risk fl client_df =
       bindE (get_col client_df ''risk (in percent)'') (\<lambda>c.
         if list_ex is_str c then Inl TypeError
         else bindE (risk_score_of fl (raw_risk_score fl (fl_mean fl c)))
                (\<lambda>k. Inr (RISK k, fl_var fl c)))
   \<and> calculate_gain fl client_df =
       bindE (get_col client_df ''margin_per_hour'') (\<lambda>c.
         if list_ex is_str c then Inl TypeError
         else case fl_percentile fl c 10 of
                None \<Rightarrow> Inl NumpyError
              | Some p10 \<Rightarrow>
                  (case fl_percentile fl c 90 of
                     None \<Rightarrow> Inl NumpyError
                   | Some p90 \<Rightarrow>
                       bindE (if float_eq p90 p10 then Inr 5
                              else gain_score_of (raw_gain_score fl (fl_mean fl c) p10 p90))
                         (\<lambda>k. Inr (GAIN k))))"
proof (intro conjI impI)
  assume a: "frac x = 1 / 2 \<and> \<bar>x\<bar> \<le> 2 ^ 52"
  let ?k = "round_half_even x"
  from a round_half_even_tie [of x]
  have t: "even ?k" "\<bar>real_of_int ?k - x\<bar> = 1 / 2" by simp_all
  have "real_of_int ?k \<le> 2 ^ 52 + 1" "- (2 ^ 52) - 1 \<le> real_of_int ?k"
    using t(2) a by (simp_all add: abs_if split: if_splits)
  then have "- (2 ^ 63) \<le> ?k \<and> ?k < 2 ^ 63" by simp
  then have "risk_score_of fl (Num x) = Inr (clip ?k 1 10)" by (rule risk_score_of_Num)
  with t gain_score_of_Num [of x]
  show "\<exists>k. even k \<and> \<bar>real_of_int k - x\<bar> = 1 / 2
           \<and> risk_score_of fl (Num x) = Inr (clip k 1 10)
           \<and> gain_score_of (Num x) = Inr (clip k 1 10)"
    by blast
next
  have a: "round_half_even (11 / 2) = 6" "round_half_even (9 / 2) = 4"
    by (simp_all add: round_half_even_def Let_def)
  show "risk_score_of fl (Num (11 / 2)) = Inr 6"
    by (subst risk_score_of_Num) (simp_all add: a clip_def)
  show "risk_score_of fl (Num (9 / 2)) = Inr 4"
    by (subst risk_score_of_Num) (simp_all add: a clip_def)
  show "gain_score_of (Num (11 / 2)) = Inr 6" by (simp add: gain_score_of_Num a clip_def)
  show "gain_score_of (Num (9 / 2)) = Inr 4" by (simp add: gain_score_of_Num a clip_def)
next
  show "calculate_risk fl client_df =
       bindE (get_col client_df ''risk (in percent)'') (\<lambda>c.
         if list_ex is_str c then Inl TypeError
         else bindE (risk_score_of fl (raw_risk_score fl (fl_mean fl c)))
                (\<lambda>k. Inr (RISK k, fl_var fl c)))"
    by (rule calculate_risk_eq)
next
  show "calculate_gain fl client_df =
       bindE (get_col client_df ''margin_per_hour'') (\<lambda>c.
         if list_ex is_str c then Inl TypeError
         else case fl_percentile fl c 10 of
                None \<Rightarrow> Inl NumpyError
              | Some p10 \<Rightarrow>
                  (case fl_percentile fl c 90 of
                     None \<Rightarrow> Inl NumpyError
                   | Some p90 \<Rightarrow>
                       bindE (if float_eq p90 p10 then Inr 5
                              else gain_score_of (raw_gain_score fl (fl_mean fl c) p10 p90))
                         (\<lambda>k. Inr (GAIN k))))"
    by (rule calculate_gain_eq)
qed

theorem scores_round_half_to_even_witness:
  "frac (5 / 2 :: real) = 1 / 2
   \<and> risk_score_of exact_lib (Num (5 / 2)) = Inr 2
   \<and> gain_score_of (Num (5 / 2)) = Inr 2
   \<and> frac (15 / 2 :: real) = 1 / 2
   \<and> risk_score_of exact_lib (Num (15 / 2)) = Inr 8
   \<and> gain_score_of (Num (15 / 2)) = Inr 8"
proof -
  have f: "frac (5 / 2 :: real) = 1 / 2" "frac (15 / 2 :: real) = 1 / 2"
    by (simp_all add: frac_def)
  have b: "(2::real) \<le> 2 ^ 52" by simp
  have h1: "frac (5 / 2 :: real) = 1 / 2 \<and> \<bar>5 / 2 :: real\<bar> \<le> 2 ^ 52" using f by simp
  have h2: "frac (15 / 2 :: real) = 1 / 2 \<and> \<bar>15 / 2 :: real\<bar> \<le> 2 ^ 52" using f by simp
  from scores_round_half_to_even [of "5 / 2" exact_lib, THEN conjunct1, rule_format, OF h1]
  obtain k where k: "even k" "\<bar>real_of_int k - 5 / 2\<bar> = 1 / 2"
    "risk_score_of exact_lib (Num (5 / 2)) = Inr (clip k 1 10)"
    "gain_score_of (Num (5 / 2)) = Inr (clip k 1 10)" by blast
  from k(2) have "real_of_int k = 2 \<or> real_of_int k = 3" by (simp add: abs_if split: if_splits)
  then have "k = 2 \<or> k = 3" by linarith
  with k(1) have k2: "k = 2" by auto
  from scores_round_half_to_even [of "15 / 2" exact_lib, THEN conjunct1, rule_format, OF h2]
  obtain j where j: "even j" "\<bar>real_of_int j - 15 / 2\<bar> = 1 / 2"
    "risk_score_of exact_lib (Num (15 / 2)) = Inr (clip j 1 10)"
    "gain_score_of (Num (15 / 2)) = Inr (clip j 1 10)" by blast
  from j(2) have "real_of_int j = 7 \<or> real_of_int j = 8" by (simp add: abs_if split: if_splits)
  then have "j = 7 \<or> j = 8" by linarith
  with j(1) have j8: "j = 8" by auto
  from f k(3,4) j(3,4) show ?thesis unfolding k2 j8 by (simp add: clip_def)
qed

end
